theory Spec2Isabelle
  imports
    Main
    "HOL-Library.List_Lexorder"
    "HOL-Library.Product_Lexorder"
    "HOL-Library.Multiset"
    "HOL-Library.Sublist"
begin

section \<open>Python values used by the library service\<close>

text \<open>
  A Python \<open>str\<close> is a sequence of Unicode code points. It is modelled as a list of
  natural numbers, one per code point, so that \<open>len\<close> is \<open>length\<close> and the comparison
  of two strings is the lexicographic order on code points (the order
  \<open>HOL-Library.List_Lexorder\<close> gives to lists). Tuples used as sort keys are compared
  lexicographically, which is the order of \<open>HOL-Library.Product_Lexorder\<close>.
\<close>

type_synonym ustring = "nat list"

definition str :: "string \<Rightarrow> ustring" where
  "str s = map of_char s"

text \<open>
  The methods \<open>str.isalpha\<close>, \<open>str.isspace\<close> and \<open>str.lower\<close> and the digit values
  accepted by \<open>int\<close> read the Unicode character database of the interpreter. On Basic
  Latin (code points below 128) they are written out here; beyond it they are taken
  from a table that every function below receives as its first argument, so that each
  theorem holds for whatever the database says there.
\<close>

record unicode =
  alpha_tab :: "nat \<Rightarrow> bool"
  space_tab :: "nat \<Rightarrow> bool"
  digit_tab :: "nat \<Rightarrow> nat option"
  lower_tab :: "ustring \<Rightarrow> ustring"

definition isalpha :: "unicode \<Rightarrow> nat \<Rightarrow> bool" where
  "isalpha U c =
     (if c < 128 then (65 \<le> c \<and> c \<le> 90) \<or> (97 \<le> c \<and> c \<le> 122) else alpha_tab U c)"

definition isspace :: "unicode \<Rightarrow> nat \<Rightarrow> bool" where
  "isspace U c =
     (if c < 128 then (9 \<le> c \<and> c \<le> 13) \<or> (28 \<le> c \<and> c \<le> 32) else space_tab U c)"


definition ascii_lower :: "nat \<Rightarrow> nat" where
  "ascii_lower c = (if 65 \<le> c \<and> c \<le> 90 then c + 32 else c)"

definition lower :: "unicode \<Rightarrow> ustring \<Rightarrow> ustring" where
  "lower U s = (if list_all (\<lambda>c. c < 128) s then map ascii_lower s else lower_tab U s)"

text \<open>
  A table for the Russian alphabet, used where a statement is evaluated on Cyrillic
  text: the letters U+0410 to U+044F, U+0401 and U+0451 are alphabetic, and lowering
  moves U+0410..U+042F up by 32 and U+0400..U+040F up by 80.
\<close>

definition cyr_lower :: "nat \<Rightarrow> nat" where
  "cyr_lower c =
     (if 1040 \<le> c \<and> c \<le> 1071 then c + 32
      else if 1024 \<le> c \<and> c \<le> 1039 then c + 80
      else ascii_lower c)"

definition ucd_cyr :: unicode where
  "ucd_cyr = \<lparr> alpha_tab = (\<lambda>c. (1040 \<le> c \<and> c \<le> 1103) \<or> c = 1025 \<or> c = 1105),
               space_tab = (\<lambda>c. c = 133 \<or> c = 160),
               digit_tab = (\<lambda>c. None),
               lower_tab = map cyr_lower \<rparr>"

text \<open>
  The operator \<open>needle in hay\<close> on strings: some suffix of \<open>hay\<close> starts with
  \<open>needle\<close>.
\<close>

fun py_in :: "'a list \<Rightarrow> 'a list \<Rightarrow> bool" where
  "py_in needle [] = (needle = [])"
| "py_in needle (c # cs) = (prefix needle (c # cs) \<or> py_in needle cs)"

datatype error =
    ValidationError
  | BookDoesNotExists ustring
  | ValueError
  | TypeError






text \<open>
  The text form of a version 4 UUID, as \<open>str(uuid.uuid4())\<close> returns it: 36
  characters, lower-case hexadecimal digits in groups of 8-4-4-4-12 separated by
  hyphens, the version digit 4 and a variant digit among 8, 9, a, b.
\<close>

definition is_hex :: "nat \<Rightarrow> bool" where
  "is_hex c = ((48 \<le> c \<and> c \<le> 57) \<or> (97 \<le> c \<and> c \<le> 102))"

definition is_uuid4_str :: "ustring \<Rightarrow> bool" where
  "is_uuid4_str u =
     (length u = 36 \<and>
      list_all (\<lambda>(i, c). if i \<in> {8, 13, 18, 23} then c = 45 else is_hex c) (zip [0..<36] u) \<and>
      u ! 14 = 52 \<and> u ! 19 \<in> {56, 57, 97, 98})"

section \<open>constants.py, schemas.py\<close>

datatype BookStatus = available | issued

text \<open>The two values are the Russian for "in stock" and "issued".\<close>

fun BookStatus_value :: "BookStatus \<Rightarrow> ustring" where
  "BookStatus_value available = [1074, 32, 1085, 1072, 1083, 1080, 1095, 1080, 1080]"
| "BookStatus_value issued = [1074, 1099, 1076, 1072, 1085, 1072]"

definition BookStatus_of_value :: "ustring \<Rightarrow> BookStatus option" where
  "BookStatus_of_value s =
     (if s = BookStatus_value available then Some available
      else if s = BookStatus_value issued then Some issued
      else None)"

record BaseBookSchema =
  title :: ustring
  author :: ustring
  year :: int

type_synonym BookCreate = BaseBookSchema

record BookRead = BaseBookSchema +
  id' :: ustring
  status :: BookStatus

definition validate_author :: "unicode \<Rightarrow> ustring \<Rightarrow> error + ustring" where
  "validate_author U v =
     (if \<not> list_all (\<lambda>c. isalpha U c \<or> isspace U c \<or> c \<in> set (str ''.,-'')) v
      then Inl ValidationError
      else if py_in (str ''  '') v \<or> py_in (str ''..'') v \<or> py_in (str '',,'') v
      then Inl ValidationError
      else Inr v)"

text \<open>
  The field checks of \<open>BaseBookSchema\<close>: \<open>title\<close> has at most 50 characters, \<open>author\<close>
  passes \<open>validate_author\<close>, \<open>year\<close> is at least 0. The year is an integer here: the
  coercion of other values to \<open>int\<close> that the validation library performs first is
  not modelled.
\<close>

definition base_fields_ok :: "unicode \<Rightarrow> ustring \<Rightarrow> ustring \<Rightarrow> int \<Rightarrow> bool" where
  "base_fields_ok U t a y = (length t \<le> 50 \<and> validate_author U a = Inr a \<and> 0 \<le> y)"

definition BookCreate_init :: "unicode \<Rightarrow> ustring \<Rightarrow> ustring \<Rightarrow> int \<Rightarrow> error + BookCreate" where
  "BookCreate_init U t a y =
     (if base_fields_ok U t a y then Inr \<lparr> title = t, author = a, year = y \<rparr>
      else Inl ValidationError)"

section \<open>JSON documents\<close>

text \<open>
  What \<open>json.load\<close> returns and \<open>json.dump\<close> accepts. An object is the list of its
  members in document order; a later member with the same key replaces an earlier
  one, as in the dictionary \<open>json.load\<close> builds. The file system maps a path to the
  document stored there; writing and parsing the text of a document is the \<open>json\<close>
  module's work and is not modelled, nor are failures of the file system.
\<close>

datatype json =
    JNull
  | JBool bool
  | JInt int
  | JStr ustring
  | JArr "json list"
  | JObj "(ustring \<times> json) list"

type_synonym filesystem = "ustring \<Rightarrow> json option"

definition dict_get :: "(ustring \<times> json) list \<Rightarrow> ustring \<Rightarrow> json option" where
  "dict_get kvs k = map_of (rev kvs) k"

text \<open>
  \<open>BookRead.model_validate\<close> on a dictionary: the five fields must be present, with
  the types the schema declares, the base checks must hold and \<open>status\<close> must be one
  of the two values of \<open>BookStatus\<close>. Members the schema does not name are ignored.
  A field value of another type is reported as a validation error: the conversions
  that the validation library would try on it first (a numeric string for \<open>year\<close>,
  for instance) are not modelled, and no statement below rests on such a rejection.
\<close>

definition BookRead_model_validate :: "unicode \<Rightarrow> json \<Rightarrow> error + BookRead" where
  "BookRead_model_validate U j =
     (case j of
        JObj kvs \<Rightarrow>
          (case (dict_get kvs (str ''title''), dict_get kvs (str ''author''),
                 dict_get kvs (str ''year''), dict_get kvs (str ''id''),
                 dict_get kvs (str ''status'')) of
             (Some (JStr t), Some (JStr a), Some (JInt y), Some (JStr i), Some (JStr s)) \<Rightarrow>
               (case BookStatus_of_value s of
                  None \<Rightarrow> Inl ValidationError
                | Some st \<Rightarrow>
                    if base_fields_ok U t a y
                    then Inr \<lparr> title = t, author = a, year = y, id' = i, status = st \<rparr>
                    else Inl ValidationError)
           | _ \<Rightarrow> Inl ValidationError)
      | _ \<Rightarrow> Inl ValidationError)"

text \<open>\<open>BookSchemaEncoder.default\<close>: a record becomes the dictionary of its fields.\<close>

definition model_dump :: "BookRead \<Rightarrow> json" where
  "model_dump b =
     JObj [(str ''title'', JStr (title b)), (str ''author'', JStr (author b)),
           (str ''year'', JInt (year b)), (str ''id'', JStr (id' b)),
           (str ''status'', JStr (BookStatus_value (status b)))]"

section \<open>service.py\<close>

record LibraryService =
  file_name :: ustring
  books :: "BookRead list"




definition save_data :: "LibraryService \<Rightarrow> filesystem \<Rightarrow> filesystem" where
  "save_data svc fs = fs(file_name svc \<mapsto> JArr (map model_dump (books svc)))"

definition flush :: "bool \<Rightarrow> LibraryService \<Rightarrow> filesystem \<Rightarrow> filesystem" where
  "flush need_save svc fs = (if need_save then save_data svc fs else fs)"

text \<open>
  Every operation that can raise returns \<open>Inl\<close> of the exception; the source raises
  before it changes the list or the file, so the service and the file system after
  an exception are the ones the operation was given. \<open>add_book\<close> receives the string
  that \<open>str(uuid.uuid4())\<close> produced as its argument \<open>uid\<close>.
\<close>

definition add_book ::
  "unicode \<Rightarrow> ustring \<Rightarrow> BookCreate \<Rightarrow> bool \<Rightarrow> LibraryService \<Rightarrow> filesystem \<Rightarrow>
     error + (BookRead \<times> LibraryService \<times> filesystem)" where
  "add_book U uid data need_save svc fs =
     (let new_book = JObj [(str ''id'', JStr uid), (str ''title'', JStr (title data)),
                           (str ''author'', JStr (author data)), (str ''year'', JInt (year data)),
                           (str ''status'', JStr (BookStatus_value available))]
      in case BookRead_model_validate U new_book of
           Inl e \<Rightarrow> Inl e
         | Inr validated_book \<Rightarrow>
             (let svc' = svc\<lparr> books := books svc @ [validated_book] \<rparr>
              in Inr (validated_book, svc', flush need_save svc' fs)))"

text \<open>The call \<open>add_book(BookCreate(title=..., author=..., year=...))\<close> of the callers.\<close>

definition create ::
  "unicode \<Rightarrow> ustring \<Rightarrow> ustring \<Rightarrow> ustring \<Rightarrow> int \<Rightarrow> bool \<Rightarrow> LibraryService \<Rightarrow> filesystem \<Rightarrow>
     error + (BookRead \<times> LibraryService \<times> filesystem)" where
  "create U uid t a y need_save svc fs =
     (case BookCreate_init U t a y of
        Inl e \<Rightarrow> Inl e
      | Inr data \<Rightarrow> add_book U uid data need_save svc fs)"

definition list_books :: "LibraryService \<Rightarrow> BookRead list" where
  "list_books svc = sort_key (\<lambda>x. (title x, author x, id' x)) (books svc)"




definition find_book_by_id :: "unicode \<Rightarrow> LibraryService \<Rightarrow> ustring \<Rightarrow> BookRead option" where
  "find_book_by_id U svc book_id =
     find (\<lambda>book. lower U book_id = lower U (id' book)) (books svc)"

text \<open>\<open>list.remove\<close> deletes the first element equal to its argument: \<open>remove1\<close>.\<close>

definition delete_book ::
  "unicode \<Rightarrow> ustring \<Rightarrow> bool \<Rightarrow> LibraryService \<Rightarrow> filesystem \<Rightarrow>
     error + (LibraryService \<times> filesystem)" where
  "delete_book U book_id need_save svc fs =
     (case find_book_by_id U svc book_id of
        None \<Rightarrow> Inl (BookDoesNotExists book_id)
      | Some book \<Rightarrow>
          (let svc' = svc\<lparr> books := remove1 book (books svc) \<rparr>
           in Inr (svc', flush need_save svc' fs)))"

text \<open>
  The loop of \<open>update_status\<close>: the first book whose id is equal to \<open>book_id\<close> gets the
  status and the loop returns; \<open>None\<close> when the loop runs to its end.
\<close>

fun set_first_status :: "ustring \<Rightarrow> BookStatus \<Rightarrow> BookRead list \<Rightarrow> BookRead list option" where
  "set_first_status book_id st [] = None"
| "set_first_status book_id st (book # rest) =
     (if id' book = book_id then Some (book\<lparr> status := st \<rparr> # rest)
      else map_option ((#) book) (set_first_status book_id st rest))"

definition update_status ::
  "ustring \<Rightarrow> BookStatus \<Rightarrow> bool \<Rightarrow> LibraryService \<Rightarrow> filesystem \<Rightarrow>
     error + (LibraryService \<times> filesystem)" where
  "update_status book_id st need_save svc fs =
     (case set_first_status book_id st (books svc) of
        None \<Rightarrow> Inl (BookDoesNotExists book_id)
      | Some bs \<Rightarrow>
          (let svc' = svc\<lparr> books := bs \<rparr>
           in Inr (svc', flush need_save svc' fs)))"

section \<open>Notions used by the statements\<close>



text \<open>
  Sequences of mutating calls. A call that raises leaves the service and the file
  system as they were, and the sequence goes on. \<open>all_fresh\<close> says that the identifier
  generated for each \<open>Create\<close> is not the id of a book in the store at that moment.
\<close>

datatype operation =
    Create ustring ustring ustring int bool
  | Delete ustring bool
  | UpdateStatus ustring BookStatus bool

type_synonym world = "LibraryService \<times> filesystem"

fun apply_operation :: "unicode \<Rightarrow> operation \<Rightarrow> world \<Rightarrow> error + world" where
  "apply_operation U (Create uid t a y need_save) (svc, fs) =
     (case create U uid t a y need_save svc fs of
        Inl e \<Rightarrow> Inl e
      | Inr (b, w) \<Rightarrow> Inr w)"
| "apply_operation U (Delete book_id need_save) (svc, fs) =
     delete_book U book_id need_save svc fs"
| "apply_operation U (UpdateStatus book_id st need_save) (svc, fs) =
     update_status book_id st need_save svc fs"

definition after :: "unicode \<Rightarrow> operation \<Rightarrow> world \<Rightarrow> world" where
  "after U opn w = (case apply_operation U opn w of Inl e \<Rightarrow> w | Inr w' \<Rightarrow> w')"

fun run :: "unicode \<Rightarrow> operation list \<Rightarrow> world \<Rightarrow> world" where
  "run U [] w = w"
| "run U (opn # ops) w = run U ops (after U opn w)"

fun fresh :: "operation \<Rightarrow> world \<Rightarrow> bool" where
  "fresh (Create uid t a y need_save) (svc, fs) = (uid \<notin> set (map id' (books svc)))"
| "fresh (Delete book_id need_save) w = True"
| "fresh (UpdateStatus book_id st need_save) w = True"

fun all_fresh :: "unicode \<Rightarrow> operation list \<Rightarrow> world \<Rightarrow> bool" where
  "all_fresh U [] w = True"
| "all_fresh U (opn # ops) w = (fresh opn w \<and> all_fresh U ops (after U opn w))"

section \<open>Books and stores of the test suite\<close>

text \<open>
  The titles and authors of \<open>tests/test_cli.py\<close>, as code points. The first four are
  the Russian titles "Tyomnye allei", "Rekviem", "Myortvye dushi" and the title 1984.
\<close>

definition t_alleys :: ustring where
  "t_alleys = [1058, 1105, 1084, 1085, 1099, 1077, 32, 1072, 1083, 1083, 1077, 1080]"

definition t_requiem :: ustring where
  "t_requiem = [1056, 1077, 1082, 1074, 1080, 1077, 1084]"

definition t_souls :: ustring where
  "t_souls = [1052, 1077, 1088, 1090, 1074, 1099, 1077, 32, 1076, 1091, 1096, 1080]"

definition t_1984 :: ustring where
  "t_1984 = [49, 57, 56, 52]"

definition a_bunin :: ustring where
  "a_bunin = [1041, 1091, 1085, 1080, 1085, 32, 1048, 1074, 1072, 1085, 32, 1040, 1083, 1077,
              1082, 1089, 1077, 1077, 1074, 1080, 1095]"

definition a_akhmatova :: ustring where
  "a_akhmatova = [1040, 1093, 1084, 1072, 1090, 1086, 1074, 1072, 32, 1040, 1085, 1085, 1072]"

definition a_gogol :: ustring where
  "a_gogol = [1043, 1086, 1075, 1086, 1083, 1100, 32, 1053, 1080, 1082, 1086, 1083, 1072, 1081,
              32, 1042, 1072, 1089, 1080, 1083, 1100, 1077, 1074, 1080, 1095]"

definition uuid_1 :: ustring where
  "uuid_1 = str ''0b7f3c1e-52a4-4d0e-9c3b-6f1a2e8d4c01''"

definition uuid_2 :: ustring where
  "uuid_2 = str ''7d2e9a40-1c5b-4f6a-8e21-3b9c0d7f5a02''"

definition uuid_3 :: ustring where
  "uuid_3 = str ''c41d8e77-9f02-4b3a-a5d6-0e2f7c1b9d03''"

definition uuid_4 :: ustring where
  "uuid_4 = str ''3e6a1f95-d8c7-4e2b-b0f4-5a9d3c6e7f04''"

definition book_alleys :: BookRead where
  "book_alleys = \<lparr> title = t_alleys, author = a_bunin, year = 1937,
                    id' = uuid_1, status = available \<rparr>"

definition book_requiem :: BookRead where
  "book_requiem = \<lparr> title = t_requiem, author = a_akhmatova, year = 1963,
                     id' = uuid_2, status = available \<rparr>"

definition book_souls :: BookRead where
  "book_souls = \<lparr> title = t_souls, author = a_gogol, year = 1842,
                   id' = uuid_3, status = available \<rparr>"

definition book_1984 :: BookRead where
  "book_1984 = \<lparr> title = t_1984, author = str ''George Orwell'', year = 1949,
                  id' = uuid_4, status = available \<rparr>"

definition library_json :: ustring where
  "library_json = str ''library.json''"

definition classics :: LibraryService where
  "classics = \<lparr> file_name = library_json,
                 books = [book_alleys, book_requiem, book_souls, book_1984] \<rparr>"












text \<open>
  A store as \<open>_load_data\<close> builds it from a file whose two records have the ids
  \<open>AB\<close> and \<open>ab\<close>: two different ids that are equal after \<open>lower\<close>.
\<close>

definition book_AB :: BookRead where
  "book_AB = \<lparr> title = str ''Upper'', author = str ''A. Author'', year = 2001,
                id' = str ''AB'', status = available \<rparr>"

definition book_ab :: BookRead where
  "book_ab = \<lparr> title = str ''Lower'', author = str ''A. Author'', year = 2002,
                id' = str ''ab'', status = available \<rparr>"

definition case_shelf :: LibraryService where
  "case_shelf = \<lparr> file_name = library_json, books = [book_AB, book_ab] \<rparr>"

definition no_files :: filesystem where
  "no_files = Map.empty"

text \<open>
  The store of a service started with no file, a sequence of calls on it, and two
  records that \<open>add_book\<close> builds in the examples below.
\<close>

definition empty_library :: LibraryService where
  "empty_library = \<lparr> file_name = library_json, books = [] \<rparr>"

definition session :: "operation list" where
  "session = [Create uuid_1 t_alleys a_bunin 1937 False,
              Create uuid_4 t_1984 (str ''George Orwell'') 1949 True,
              UpdateStatus uuid_1 issued False,
              Delete uuid_4 True,
              Delete uuid_4 True]"


definition book_dashes :: BookRead where
  "book_dashes = \<lparr> title = str ''Dashes'', author = str ''A--B'', year = 2000,
                    id' = uuid_1, status = available \<rparr>"

section \<open>Auxiliary facts\<close>

lemma set_first_status_None:
  "set_first_status q st bs = None \<longleftrightarrow> (\<forall>b\<in>set bs. id' b \<noteq> q)"
  by (induction bs) auto

lemma set_first_status_first:
  "(\<forall>x\<in>set pre. id' x \<noteq> q) \<Longrightarrow> id' b = q \<Longrightarrow>
   set_first_status q st (pre @ b # post) = Some (pre @ b\<lparr>status := st\<rparr> # post)"
  by (induction pre) auto

lemma set_first_status_ids:
  "set_first_status q st bs = Some bs' \<Longrightarrow> map id' bs' = map id' bs"
  by (induction bs arbitrary: bs') (auto split: if_splits)

lemma set_first_status_distinct:
  "set_first_status q st bs = Some bs' \<Longrightarrow> distinct (map id' bs) \<Longrightarrow>
   bs' = map (\<lambda>x. if id' x = q then x\<lparr>status := st\<rparr> else x) bs"
proof (induction bs arbitrary: bs')
  case Nil
  then show ?case by simp
next
  case (Cons b bs)
  show ?case
  proof (cases "id' b = q")
    case True
    with Cons.prems have "\<forall>x\<in>set bs. id' x \<noteq> q" by (auto simp: image_iff)
    then have "map (\<lambda>x. if id' x = q then x\<lparr>status := st\<rparr> else x) bs = bs"
      by (induction bs) auto
    with True Cons.prems show ?thesis by simp
  next
    case False
    with Cons show ?thesis by auto
  qed
qed

lemma flush_idem: "flush ns svc (flush ns svc fs) = flush ns svc fs"
  by (simp add: flush_def save_data_def)

lemma update_status_raises:
  "(\<forall>b\<in>set (books svc). id' b \<noteq> q) \<Longrightarrow>
   update_status q st ns svc fs = Inl (BookDoesNotExists q)"
  using set_first_status_None [of q st "books svc"] by (simp add: update_status_def)

lemma update_status_first:
  assumes "books svc = pre @ b # post" "\<forall>x\<in>set pre. id' x \<noteq> q" "id' b = q"
  shows "update_status q st ns svc fs =
           Inr (svc\<lparr>books := pre @ b\<lparr>status := st\<rparr> # post\<rparr>,
                flush ns (svc\<lparr>books := pre @ b\<lparr>status := st\<rparr> # post\<rparr>) fs)"
  using assms set_first_status_first [of pre q b st post]
  by (simp add: update_status_def Let_def)




lemma find_book_by_id_None:
  "find_book_by_id U svc q = None \<longleftrightarrow> (\<forall>b\<in>set (books svc). lower U (id' b) \<noteq> lower U q)"
  by (auto simp: find_book_by_id_def find_None_iff)

lemma find_first_match:
  "(\<forall>x\<in>set pre. \<not> P x) \<Longrightarrow> P b \<Longrightarrow> find P (pre @ b # post) = Some b"
  by (induction pre) auto

lemma find_book_by_id_first:
  assumes "books svc = pre @ b # post" "\<forall>x\<in>set pre. lower U (id' x) \<noteq> lower U q"
    "lower U (id' b) = lower U q"
  shows "find_book_by_id U svc q = Some b"
proof -
  have "\<forall>x\<in>set pre. \<not> lower U q = lower U (id' x)"
    using assms(2) by metis
  moreover have "lower U q = lower U (id' b)"
    using assms(3) by (rule sym)
  ultimately have "find (\<lambda>book. lower U q = lower U (id' book)) (pre @ b # post) = Some b"
    by (rule find_first_match)
  then show ?thesis
    unfolding find_book_by_id_def assms(1) .
qed

lemma remove1_first_match:
  "b \<notin> set pre \<Longrightarrow> remove1 b (pre @ b # post) = pre @ post"
  by (induction pre) auto

lemma delete_book_raises:
  "(\<forall>b\<in>set (books svc). lower U (id' b) \<noteq> lower U q) \<Longrightarrow>
   delete_book U q ns svc fs = Inl (BookDoesNotExists q)"
  using find_book_by_id_None [of U svc q] by (simp add: delete_book_def)

lemma delete_book_first:
  assumes "books svc = pre @ b # post" "\<forall>x\<in>set pre. lower U (id' x) \<noteq> lower U q"
    "lower U (id' b) = lower U q"
  shows "delete_book U q ns svc fs =
           Inr (svc\<lparr>books := pre @ post\<rparr>, flush ns (svc\<lparr>books := pre @ post\<rparr>) fs)"
proof -
  have "b \<notin> set pre" using assms(2,3) by auto
  then have "remove1 b (books svc) = pre @ post"
    using assms(1) by (simp add: remove1_first_match)
  then show ?thesis
    using find_book_by_id_first [OF assms] by (simp add: delete_book_def Let_def)
qed

lemma fixture_evals:
  "lower U (str ''ab'') = str ''ab''" "lower U (str ''AB'') = str ''ab''"
  by (simp_all add: lower_def str_def ascii_lower_def)



lemma sorted_fst_of_pairs:
  "sorted (map (\<lambda>x. (f x, g x)) xs) \<Longrightarrow> sorted (map f xs)"
  unfolding sorted_map by (erule sorted_wrt_mono_rel [rotated]) (auto simp: less_eq_prod_def)

lemma sorted_titles:
  assumes "sorted ts" "mset ts = mset [t_1984, t_alleys, t_requiem, t_souls]"
  shows "ts = [t_1984, t_souls, t_requiem, t_alleys]"
proof -
  have "sort [t_1984, t_alleys, t_requiem, t_souls] = ts"
    using assms by (intro properties_for_sort) auto
  then show ?thesis
    by (simp add: t_1984_def t_alleys_def t_requiem_def t_souls_def)
qed







lemma author_ok_iff:
  "validate_author U a = Inr a \<longleftrightarrow>
     (\<forall>c\<in>set a. isalpha U c \<or> isspace U c \<or> c \<in> {46, 44, 45}) \<and>
     \<not> py_in [32, 32] a \<and> \<not> py_in [46, 46] a \<and> \<not> py_in [44, 44] a"
  by (auto simp: validate_author_def str_def list_all_iff)

lemma add_book_valid:
  assumes "base_fields_ok U (title data) (author data) (year data)"
  shows "add_book U uid data ns svc fs =
           Inr (\<lparr>title = title data, author = author data, year = year data, id' = uid,
                 status = available\<rparr>,
                svc\<lparr>books := books svc @ [\<lparr>title = title data, author = author data,
                  year = year data, id' = uid, status = available\<rparr>]\<rparr>,
                flush ns (svc\<lparr>books := books svc @ [\<lparr>title = title data, author = author data,
                  year = year data, id' = uid, status = available\<rparr>]\<rparr>) fs)"
  using assms
  by (simp add: add_book_def BookRead_model_validate_def dict_get_def str_def
      BookStatus_of_value_def Let_def)

lemma create_valid:
  assumes "base_fields_ok U t a y"
  shows "create U uid t a y ns svc fs =
           Inr (\<lparr>title = t, author = a, year = y, id' = uid, status = available\<rparr>,
                svc\<lparr>books := books svc @ [\<lparr>title = t, author = a, year = y, id' = uid,
                  status = available\<rparr>]\<rparr>,
                flush ns (svc\<lparr>books := books svc @ [\<lparr>title = t, author = a, year = y, id' = uid,
                  status = available\<rparr>]\<rparr>) fs)"
  using assms add_book_valid [of U "\<lparr>title = t, author = a, year = y\<rparr>" uid ns svc fs]
  by (simp add: create_def BookCreate_init_def)

lemma create_invalid:
  "\<not> base_fields_ok U t a y \<Longrightarrow> create U uid t a y ns svc fs = Inl ValidationError"
  by (simp add: create_def BookCreate_init_def)


lemma fixture_authors_ok:
  "validate_author ucd_cyr a_bunin = Inr a_bunin"
  "validate_author ucd_cyr a_akhmatova = Inr a_akhmatova"
  "validate_author ucd_cyr (str ''George Orwell'') = Inr (str ''George Orwell'')"
  "validate_author ucd_cyr (str ''A--B'') = Inr (str ''A--B'')"
  by (simp_all add: validate_author_def a_bunin_def a_akhmatova_def str_def isalpha_def
      isspace_def ucd_cyr_def)

lemma fixture_uuids:
  "is_uuid4_str uuid_1" "is_uuid4_str uuid_4" "uuid_1 \<noteq> uuid_4" "uuid_4 \<noteq> uuid_1"
  by (simp_all add: is_uuid4_str_def uuid_1_def uuid_4_def str_def is_hex_def upt_rec)

lemma fixture_titles:
  "length t_alleys \<le> 50" "length t_requiem \<le> 50" "length t_1984 \<le> 50"
  "length (str ''Dashes'') \<le> 50"
  by (simp_all add: t_alleys_def t_requiem_def t_1984_def str_def)

lemma add_book_books:
  "add_book U uid data ns svc fs = Inr (b, svc', fs') \<Longrightarrow>
   books svc' = books svc @ [b] \<and> id' b = uid"
  by (auto simp: add_book_def BookRead_model_validate_def dict_get_def str_def Let_def
      split: sum.splits option.splits json.splits if_splits)

lemma create_books:
  "create U uid t a y ns svc fs = Inr (b, svc', fs') \<Longrightarrow>
   books svc' = books svc @ [b] \<and> id' b = uid"
  by (auto simp: create_def dest: add_book_books split: sum.splits)

lemma delete_book_books:
  "delete_book U q ns svc fs = Inr (svc', fs') \<Longrightarrow> \<exists>b. books svc' = remove1 b (books svc)"
  by (auto simp: delete_book_def Let_def split: option.splits)

lemma update_status_ids:
  "update_status q st ns svc fs = Inr (svc', fs') \<Longrightarrow> map id' (books svc') = map id' (books svc)"
  by (auto simp: update_status_def Let_def split: option.splits dest: set_first_status_ids)

lemma distinct_ids_remove1: "distinct (map id' bs) \<Longrightarrow> distinct (map id' (remove1 b bs))"
  by (induction bs) (auto simp: image_iff dest: notin_set_remove1)

lemma apply_operation_distinct:
  assumes "distinct (map id' (books svc))" "fresh opn (svc, fs)"
    "apply_operation U opn (svc, fs) = Inr (svc', fs')"
  shows "distinct (map id' (books svc'))"
proof (cases opn)
  case (Create uid t a y ns)
  with assms(3) obtain b where "create U uid t a y ns svc fs = Inr (b, svc', fs')"
    by (auto split: sum.splits)
  from create_books [OF this] assms(1,2) Create show ?thesis by auto
next
  case (Delete q ns)
  with assms(3) obtain b where "books svc' = remove1 b (books svc)"
    by (auto dest: delete_book_books)
  with assms(1) show ?thesis by (simp add: distinct_ids_remove1)
next
  case (UpdateStatus q st ns)
  with assms(3) have "map id' (books svc') = map id' (books svc)"
    by (auto dest: update_status_ids)
  with assms(1) show ?thesis by simp
qed

lemma after_distinct:
  "distinct (map id' (books (fst w))) \<Longrightarrow> fresh opn w \<Longrightarrow>
   distinct (map id' (books (fst (after U opn w))))"
  by (cases w) (auto simp: after_def split: sum.splits dest: apply_operation_distinct)

lemma run_distinct:
  "distinct (map id' (books (fst w))) \<Longrightarrow> all_fresh U ops w \<Longrightarrow>
   distinct (map id' (books (fst (run U ops w))))"
  by (induction ops arbitrary: w) (auto simp: after_distinct)

lemma fixture_fields_ok:
  "base_fields_ok ucd_cyr t_alleys a_bunin 1937"
  "base_fields_ok ucd_cyr t_1984 (str ''George Orwell'') 1949"
  by (simp_all add: base_fields_ok_def fixture_authors_ok fixture_titles)

lemma session_fresh: "all_fresh ucd_cyr session (empty_library, no_files)"
  by (simp add: session_def after_def create_valid fixture_fields_ok empty_library_def
      fixture_uuids update_status_def delete_book_def find_book_by_id_def Let_def)

lemma fixture_uuids_lower:
  "lower U uuid_1 = uuid_1" "lower U uuid_4 = uuid_4"
  by (simp_all add: lower_def uuid_1_def uuid_4_def str_def ascii_lower_def)

lemma session_result:
  "map id' (books (fst (run ucd_cyr session (empty_library, no_files)))) = [uuid_1]"
  by (simp add: session_def after_def create_valid fixture_fields_ok empty_library_def
      fixture_uuids update_status_def delete_book_def find_book_by_id_def Let_def
      fixture_uuids_lower)










section \<open>Persistence\<close>



section \<open>Status changes\<close>

text \<open>
  Claim C8. \<open>update_status\<close> raises \<open>BookDoesNotExists\<close> when no record has the id. When
  some record has it, the first such record gets the given status whatever its
  status was, nothing else changes, and a second call with the same id and status
  returns the same service and file system as the first. With pairwise distinct ids
  the record that has the id is the only one, and the result is the store with the
  status of every record of that id replaced.
\<close>

theorem update_status_overwrite_idempotent:
  "((\<forall>b\<in>set (books svc). id' b \<noteq> q) \<longrightarrow>
      update_status q st ns svc fs = Inl (BookDoesNotExists q)) \<and>
   ((\<exists>b\<in>set (books svc). id' b = q) \<longrightarrow>
      (\<exists>pre b post svc' fs'.
         books svc = pre @ b # post \<and> (\<forall>x\<in>set pre. id' x \<noteq> q) \<and> id' b = q \<and>
         svc' = svc\<lparr>books := pre @ b\<lparr>status := st\<rparr> # post\<rparr> \<and>
         fs' = flush ns svc' fs \<and>
         update_status q st ns svc fs = Inr (svc', fs') \<and>
         update_status q st ns svc' fs' = Inr (svc', fs') \<and>
         (distinct (map id' (books svc)) \<longrightarrow>
            books svc' = map (\<lambda>x. if id' x = q then x\<lparr>status := st\<rparr> else x) (books svc))))"
proof (intro conjI impI)
  assume "\<forall>b\<in>set (books svc). id' b \<noteq> q"
  then show "update_status q st ns svc fs = Inl (BookDoesNotExists q)"
    by (rule update_status_raises)
next
  assume "\<exists>b\<in>set (books svc). id' b = q"
  then obtain pre b post where
    split: "books svc = pre @ b # post" "id' b = q" "\<forall>x\<in>set pre. id' x \<noteq> q"
    using split_list_first_prop [of "books svc" "\<lambda>b. id' b = q"] by blast
  define svc' where "svc' = svc\<lparr>books := pre @ b\<lparr>status := st\<rparr> # post\<rparr>"
  define fs' where "fs' = flush ns svc' fs"
  have one: "update_status q st ns svc fs = Inr (svc', fs')"
    unfolding svc'_def fs'_def using split by (intro update_status_first) auto
  have "update_status q st ns svc' fs' =
          Inr (svc'\<lparr>books := pre @ (b\<lparr>status := st\<rparr>)\<lparr>status := st\<rparr> # post\<rparr>,
               flush ns (svc'\<lparr>books := pre @ (b\<lparr>status := st\<rparr>)\<lparr>status := st\<rparr> # post\<rparr>) fs')"
    using split by (intro update_status_first) (auto simp: svc'_def)
  moreover have "svc'\<lparr>books := pre @ (b\<lparr>status := st\<rparr>)\<lparr>status := st\<rparr> # post\<rparr> = svc'"
    by (simp add: svc'_def)
  ultimately have two: "update_status q st ns svc' fs' = Inr (svc', fs')"
    by (simp add: fs'_def flush_idem)
  have three: "distinct (map id' (books svc)) \<longrightarrow>
      books svc' = map (\<lambda>x. if id' x = q then x\<lparr>status := st\<rparr> else x) (books svc)"
  proof
    assume d: "distinct (map id' (books svc))"
    have "set_first_status q st (books svc) = Some (books svc')"
      using split set_first_status_first [of pre q b st post] by (simp add: svc'_def)
    from set_first_status_distinct [OF this d] show "books svc' = map (\<lambda>x. if id' x = q then x\<lparr>status := st\<rparr> else x) (books svc)" .
  qed
  from split one two three svc'_def fs'_def
  show "\<exists>pre b post svc' fs'.
         books svc = pre @ b # post \<and> (\<forall>x\<in>set pre. id' x \<noteq> q) \<and> id' b = q \<and>
         svc' = svc\<lparr>books := pre @ b\<lparr>status := st\<rparr> # post\<rparr> \<and>
         fs' = flush ns svc' fs \<and>
         update_status q st ns svc fs = Inr (svc', fs') \<and>
         update_status q st ns svc' fs' = Inr (svc', fs') \<and>
         (distinct (map id' (books svc)) \<longrightarrow>
            books svc' = map (\<lambda>x. if id' x = q then x\<lparr>status := st\<rparr> else x) (books svc))"
    by blast
qed

theorem update_status_overwrite_idempotent_witness:
  "(\<exists>b\<in>set (books case_shelf). id' b = str ''ab'') \<and>
   (\<exists>svc' fs'.
      update_status (str ''ab'') issued True case_shelf no_files = Inr (svc', fs') \<and>
      update_status (str ''ab'') issued True svc' fs' = Inr (svc', fs')) \<and>
   str ''zz'' \<notin> set (map id' (books case_shelf)) \<and>
   update_status (str ''zz'') issued True case_shelf no_files = Inl (BookDoesNotExists (str ''zz''))"
proof -
  have p: "\<exists>b\<in>set (books case_shelf). id' b = str ''ab''"
    by (simp add: case_shelf_def book_ab_def)
  have n: "\<forall>b\<in>set (books case_shelf). id' b \<noteq> str ''zz''"
    by (simp add: case_shelf_def book_AB_def book_ab_def str_def)
  then have n': "str ''zz'' \<notin> set (map id' (books case_shelf))"
    by auto
  show ?thesis
    using p n n'
      update_status_overwrite_idempotent [of case_shelf "str ''ab''" issued True no_files]
      update_status_overwrite_idempotent [of case_shelf "str ''zz''" issued True no_files]
    by blast
qed

section \<open>Deleting and looking up by id\<close>

text \<open>
  Claim C7, as stated, fails: \<open>find_book_by_id\<close> compares ids after \<open>lower\<close>, so
  \<open>delete_book\<close> removes the first record whose id matches up to letter case. In the
  store with the ids \<open>AB\<close> and \<open>ab\<close>, deleting \<open>ab\<close> removes the record \<open>AB\<close>, and looking
  \<open>ab\<close> up afterwards still finds a record.
\<close>

theorem delete_then_find_counterexample:
  "delete_book ucd_cyr (str ''ab'') False case_shelf no_files =
     Inr (case_shelf\<lparr>books := [book_ab]\<rparr>, no_files) \<and>
   find_book_by_id ucd_cyr (case_shelf\<lparr>books := [book_ab]\<rparr>) (str ''ab'') = Some book_ab"
  by (simp add: delete_book_def find_book_by_id_def case_shelf_def book_AB_def book_ab_def
      fixture_evals flush_def)

text \<open>
  Claim C7, amended. \<open>delete_book\<close> raises \<open>BookDoesNotExists\<close> when no record has an id
  equal to the given one after \<open>lower\<close>. Otherwise it removes the first record whose
  id is equal to the given one after \<open>lower\<close> and keeps the others in their order; if
  no other record matches in that way, looking the id up afterwards returns nothing.
\<close>

theorem delete_book_first_match:
  "((\<forall>b\<in>set (books svc). lower U (id' b) \<noteq> lower U q) \<longrightarrow>
      delete_book U q ns svc fs = Inl (BookDoesNotExists q)) \<and>
   (books svc = pre @ b # post \<and> (\<forall>x\<in>set pre. lower U (id' x) \<noteq> lower U q) \<and>
    lower U (id' b) = lower U q \<longrightarrow>
      delete_book U q ns svc fs =
        Inr (svc\<lparr>books := pre @ post\<rparr>, flush ns (svc\<lparr>books := pre @ post\<rparr>) fs) \<and>
      ((\<forall>x\<in>set post. lower U (id' x) \<noteq> lower U q) \<longrightarrow>
         find_book_by_id U (svc\<lparr>books := pre @ post\<rparr>) q = None))"
proof (intro conjI impI)
  assume "\<forall>b\<in>set (books svc). lower U (id' b) \<noteq> lower U q"
  then show "delete_book U q ns svc fs = Inl (BookDoesNotExists q)"
    by (rule delete_book_raises)
next
  assume a: "books svc = pre @ b # post \<and> (\<forall>x\<in>set pre. lower U (id' x) \<noteq> lower U q) \<and>
    lower U (id' b) = lower U q"
  then show "delete_book U q ns svc fs =
        Inr (svc\<lparr>books := pre @ post\<rparr>, flush ns (svc\<lparr>books := pre @ post\<rparr>) fs)"
    by (intro delete_book_first) auto
  assume "\<forall>x\<in>set post. lower U (id' x) \<noteq> lower U q"
  with a show "find_book_by_id U (svc\<lparr>books := pre @ post\<rparr>) q = None"
    by (auto simp: find_book_by_id_None)
qed

theorem delete_book_first_match_witness:
  "delete_book ucd_cyr (str ''zz'') False case_shelf no_files = Inl (BookDoesNotExists (str ''zz'')) \<and>
   delete_book ucd_cyr (str ''Ab'') False (case_shelf\<lparr>books := [book_ab]\<rparr>) no_files =
     Inr (case_shelf\<lparr>books := []\<rparr>, no_files) \<and>
   find_book_by_id ucd_cyr (case_shelf\<lparr>books := []\<rparr>) (str ''Ab'') = None"
proof -
  have l: "lower ucd_cyr (str ''Ab'') = str ''ab''" "lower ucd_cyr (str ''zz'') = str ''zz''"
    by (simp_all add: lower_def str_def ascii_lower_def)
  have n: "\<forall>b\<in>set (books case_shelf). lower ucd_cyr (id' b) \<noteq> lower ucd_cyr (str ''zz'')"
    by (simp add: case_shelf_def book_AB_def book_ab_def fixture_evals l) (simp add: str_def)
  have p: "books (case_shelf\<lparr>books := [book_ab]\<rparr>) = [] @ book_ab # [] \<and>
      (\<forall>x\<in>set []. lower ucd_cyr (id' x) \<noteq> lower ucd_cyr (str ''Ab'')) \<and>
      lower ucd_cyr (id' book_ab) = lower ucd_cyr (str ''Ab'')"
    by (simp add: book_ab_def fixture_evals l)
  show ?thesis
    using n p
      delete_book_first_match [of case_shelf ucd_cyr "str ''zz''" False no_files "[]" book_ab "[]"]
      delete_book_first_match [of "case_shelf\<lparr>books := [book_ab]\<rparr>" ucd_cyr "str ''Ab''" False
        no_files "[]" book_ab "[]"]
    by (simp add: flush_def)
qed

text \<open>
  Claim C10, as stated, fails: in the store with the ids \<open>AB\<close> and \<open>ab\<close> the record
  \<open>AB\<close> has an id equal to the query \<open>ab\<close> only up to letter case, and \<open>update_status\<close>
  does not raise, because another record has the id \<open>ab\<close> itself.
\<close>

theorem id_case_update_counterexample:
  "book_AB \<in> set (books case_shelf) \<and> id' book_AB \<noteq> str ''ab'' \<and>
   lower ucd_cyr (id' book_AB) = lower ucd_cyr (str ''ab'') \<and>
   update_status (str ''ab'') issued False case_shelf no_files =
     Inr (case_shelf\<lparr>books := [book_AB, book_ab\<lparr>status := issued\<rparr>]\<rparr>, no_files)"
  by (simp add: update_status_def case_shelf_def book_AB_def book_ab_def fixture_evals flush_def)
    (simp add: str_def)

text \<open>
  Claim C10, amended. Let \<open>r\<close> be the first record of the store whose id is equal to
  the query after \<open>lower\<close>, let its id differ from the query, and let no record have
  the query itself as its id. Then \<open>find_book_by_id\<close> returns \<open>r\<close>, \<open>delete_book\<close>
  succeeds and removes \<open>r\<close>, and \<open>update_status\<close> raises \<open>BookDoesNotExists\<close> for the
  same query: ids are matched up to letter case by the first two and exactly by the
  third.
\<close>

theorem id_case_sensitivity:
  assumes "books svc = pre @ r # post"
    and "\<forall>x\<in>set pre. lower U (id' x) \<noteq> lower U q"
    and "lower U (id' r) = lower U q"
    and "id' r \<noteq> q"
    and "\<forall>x\<in>set post. id' x \<noteq> q"
  shows "find_book_by_id U svc q = Some r \<and>
         delete_book U q ns svc fs =
           Inr (svc\<lparr>books := pre @ post\<rparr>, flush ns (svc\<lparr>books := pre @ post\<rparr>) fs) \<and>
         update_status q st ns' svc fs' = Inl (BookDoesNotExists q)"
proof -
  have "\<forall>x\<in>set pre. id' x \<noteq> q" using assms(2) by auto
  with assms(1,4,5) have "\<forall>b\<in>set (books svc). id' b \<noteq> q" by auto
  then have "update_status q st ns' svc fs' = Inl (BookDoesNotExists q)"
    by (rule update_status_raises)
  with find_book_by_id_first [OF assms(1-3)] delete_book_first [OF assms(1-3)]
  show ?thesis by simp
qed

theorem id_case_sensitivity_witness:
  "find_book_by_id ucd_cyr case_shelf (str ''Ab'') = Some book_AB \<and>
   delete_book ucd_cyr (str ''Ab'') False case_shelf no_files =
     Inr (case_shelf\<lparr>books := [book_ab]\<rparr>, no_files) \<and>
   update_status (str ''Ab'') issued False case_shelf no_files =
     Inl (BookDoesNotExists (str ''Ab''))"
proof -
  have l: "lower ucd_cyr (str ''Ab'') = str ''ab''"
    by (simp add: lower_def str_def ascii_lower_def)
  have 1: "books case_shelf = [] @ book_AB # [book_ab]" by (simp add: case_shelf_def)
  have 2: "\<forall>x\<in>set []. lower ucd_cyr (id' x) \<noteq> lower ucd_cyr (str ''Ab'')" by simp
  have 3: "lower ucd_cyr (id' book_AB) = lower ucd_cyr (str ''Ab'')"
    by (simp add: book_AB_def fixture_evals l)
  have 4: "id' book_AB \<noteq> str ''Ab''" by (simp add: book_AB_def str_def)
  have 5: "\<forall>x\<in>set [book_ab]. id' x \<noteq> str ''Ab''" by (simp add: book_ab_def str_def)
  show ?thesis
    using id_case_sensitivity [OF 1 2 3 4 5, of False no_files issued False no_files]
    by (simp add: flush_def)
qed

section \<open>Creating records\<close>




text \<open>
  Claim C3, as stated, fails: \<open>validate_author\<close> looks for two consecutive spaces,
  periods or commas, and not for two consecutive dashes. An author with a doubled
  dash is accepted.
\<close>

theorem doubled_dash_counterexample:
  "py_in (str ''--'') (str ''A--B'') \<and>
   create ucd_cyr uuid_1 (str ''Dashes'') (str ''A--B'') 2000 False empty_library no_files =
     Inr (book_dashes, empty_library\<lparr>books := [book_dashes]\<rparr>, no_files)"
proof -
  have "base_fields_ok ucd_cyr (str ''Dashes'') (str ''A--B'') 2000"
    by (simp add: base_fields_ok_def fixture_authors_ok fixture_titles)
  from create_valid [OF this, of uuid_1 False empty_library no_files]
  show ?thesis
    by (simp add: book_dashes_def flush_def empty_library_def) (simp add: str_def)
qed

text \<open>
  Claim C3, amended. The call fails with \<open>ValidationError\<close> when the title has more
  than 50 characters, or the year is negative, or the author contains a character
  that is not a letter, whitespace, a period, a comma or a hyphen, in particular a
  digit, or the author contains two consecutive spaces, periods or commas.
\<close>

theorem create_rejects:
  assumes "50 < length t \<or> y < 0 \<or>
           (\<exists>c\<in>set a. \<not> (isalpha U c \<or> isspace U c \<or> c \<in> {46, 44, 45})) \<or>
           (\<exists>c\<in>set a. 48 \<le> c \<and> c \<le> 57) \<or>
           py_in [32, 32] a \<or> py_in [46, 46] a \<or> py_in [44, 44] a"
  shows "create U uid t a y need_save svc fs = Inl ValidationError"
proof -
  have digit: "\<not> (isalpha U c \<or> isspace U c \<or> c \<in> {46, 44, 45})" if "48 \<le> c" "c \<le> 57" for c
    using that by (auto simp: isalpha_def isspace_def)
  have "\<not> base_fields_ok U t a y"
    using assms digit unfolding base_fields_ok_def author_ok_iff by fastforce
  then show ?thesis by (rule create_invalid)
qed

theorem create_rejects_witness:
  "create ucd_cyr uuid_1 (replicate 51 45) a_bunin 1937 True empty_library no_files =
     Inl ValidationError \<and>
   create ucd_cyr uuid_1 t_alleys a_bunin (- 1) True empty_library no_files =
     Inl ValidationError \<and>
   create ucd_cyr uuid_1 t_alleys (a_bunin @ str ''123'') 1937 True empty_library no_files =
     Inl ValidationError \<and>
   create ucd_cyr uuid_1 t_alleys (a_bunin @ str ''$'') 1937 True empty_library no_files =
     Inl ValidationError \<and>
   create ucd_cyr uuid_1 t_alleys (a_bunin @ str ''..'') 1937 True empty_library no_files =
     Inl ValidationError \<and>
   create ucd_cyr uuid_1 t_alleys (str ''A  B'') 1937 True empty_library no_files =
     Inl ValidationError \<and>
   create ucd_cyr uuid_1 t_alleys (str ''A,, B'') 1937 True empty_library no_files =
     Inl ValidationError"
proof -
  have 1: "50 < length (replicate 51 (45::nat))" by simp
  have 2: "(- 1 :: int) < 0" by simp
  have 3: "\<exists>c\<in>set (a_bunin @ str ''123''). 48 \<le> c \<and> c \<le> 57" by (simp add: str_def)
  have 4: "\<exists>c\<in>set (a_bunin @ str ''$'').
             \<not> (isalpha ucd_cyr c \<or> isspace ucd_cyr c \<or> c \<in> {46, 44, 45})"
    by (simp add: str_def isalpha_def isspace_def)
  have 5: "py_in [46, 46] (a_bunin @ str ''..'')" by (simp add: a_bunin_def str_def)
  have 6: "py_in [32, 32] (str ''A  B'')" by (simp add: str_def)
  have 7: "py_in [44, 44] (str ''A,, B'')" by (simp add: str_def)
  show ?thesis
    using create_rejects [of "replicate 51 45" "1937" a_bunin ucd_cyr uuid_1 True empty_library no_files]
      create_rejects [of t_alleys "- 1" a_bunin ucd_cyr uuid_1 True empty_library no_files]
      create_rejects [of t_alleys 1937 "a_bunin @ str ''123''" ucd_cyr uuid_1 True empty_library no_files]
      create_rejects [of t_alleys 1937 "a_bunin @ str ''$''" ucd_cyr uuid_1 True empty_library no_files]
      create_rejects [of t_alleys 1937 "a_bunin @ str ''..''" ucd_cyr uuid_1 True empty_library no_files]
      create_rejects [of t_alleys 1937 "str ''A  B''" ucd_cyr uuid_1 True empty_library no_files]
      create_rejects [of t_alleys 1937 "str ''A,, B''" ucd_cyr uuid_1 True empty_library no_files]
      1 2 3 4 5 6 7
    by blast
qed

section \<open>Uniqueness of ids\<close>

text \<open>
  Claim C4. Starting from an empty store, after any sequence of \<open>Create\<close>, \<open>Delete\<close>
  and \<open>UpdateStatus\<close> calls in which each generated id is not the id of a record in
  the store at the moment of its call, the ids of the records are pairwise distinct;
  and each single call that returns keeps pairwise distinct ids pairwise distinct.
\<close>

theorem ids_stay_unique:
  "(books svc0 = [] \<and> all_fresh U ops (svc0, fs0) \<longrightarrow>
      distinct (map id' (books (fst (run U ops (svc0, fs0)))))) \<and>
   (distinct (map id' (books svc)) \<and> fresh opn (svc, fs) \<and>
    apply_operation U opn (svc, fs) = Inr (svc', fs') \<longrightarrow>
      distinct (map id' (books svc')))"
proof (intro conjI impI)
  assume "books svc0 = [] \<and> all_fresh U ops (svc0, fs0)"
  then show "distinct (map id' (books (fst (run U ops (svc0, fs0)))))"
    by (intro run_distinct) auto
next
  assume "distinct (map id' (books svc)) \<and> fresh opn (svc, fs) \<and>
    apply_operation U opn (svc, fs) = Inr (svc', fs')"
  then show "distinct (map id' (books svc'))"
    using apply_operation_distinct by blast
qed

theorem ids_stay_unique_witness:
  "books empty_library = [] \<and> all_fresh ucd_cyr session (empty_library, no_files) \<and>
   map id' (books (fst (run ucd_cyr session (empty_library, no_files)))) = [uuid_1] \<and>
   distinct (map id' (books (fst (run ucd_cyr session (empty_library, no_files)))))"
proof -
  have e: "books empty_library = []" by (simp add: empty_library_def)
  show ?thesis
    using e session_fresh session_result
      ids_stay_unique [of empty_library ucd_cyr session no_files]
    by simp
qed

section \<open>Listing and searching\<close>

text \<open>
  Claim C5. \<open>list_books\<close> returns a permutation of the records of the store, sorted
  in ascending order of the key (title, author, id), strings being compared
  lexicographically by code point. For records with the four titles of the test
  suite, in any order, the record titled 1984 comes first and the record titled
  "Tyomnye allei" comes last.
\<close>

theorem list_books_sorted_permutation:
  "mset (list_books svc) = mset (books svc) \<and>
   sorted (map (\<lambda>x. (title x, author x, id' x)) (list_books svc)) \<and>
   (mset (map title (books svc)) = mset [t_1984, t_alleys, t_requiem, t_souls] \<longrightarrow>
      map title (list_books svc) = [t_1984, t_souls, t_requiem, t_alleys] \<and>
      title (hd (list_books svc)) = t_1984 \<and> title (last (list_books svc)) = t_alleys)"
proof (intro conjI impI)
  show p: "mset (list_books svc) = mset (books svc)"
    by (simp add: list_books_def)
  show s: "sorted (map (\<lambda>x. (title x, author x, id' x)) (list_books svc))"
    unfolding list_books_def by (rule sorted_sort_key)
  assume a: "mset (map title (books svc)) = mset [t_1984, t_alleys, t_requiem, t_souls]"
  have "mset (map title (list_books svc)) = mset (map title (books svc))"
    using p by (metis mset_map)
  with a sorted_fst_of_pairs [OF s]
  show m: "map title (list_books svc) = [t_1984, t_souls, t_requiem, t_alleys]"
    by (intro sorted_titles) simp_all
  then have ne: "list_books svc \<noteq> []" by auto
  from m show "title (hd (list_books svc)) = t_1984"
    using hd_map [OF ne, of title] by simp
  from m show "title (last (list_books svc)) = t_alleys"
    using last_map [OF ne, of title] by simp
qed

theorem list_books_sorted_permutation_witness:
  "mset (map title (books classics)) = mset [t_1984, t_alleys, t_requiem, t_souls] \<and>
   mset (list_books classics) = mset (books classics) \<and>
   map title (list_books classics) = [t_1984, t_souls, t_requiem, t_alleys] \<and>
   title (hd (list_books classics)) = t_1984 \<and> title (last (list_books classics)) = t_alleys"
proof -
  have h: "mset (map title (books classics)) = mset [t_1984, t_alleys, t_requiem, t_souls]"
    by (simp add: classics_def book_alleys_def book_requiem_def book_souls_def book_1984_def)
  show ?thesis
    using h list_books_sorted_permutation [of classics] by simp
qed





end
